theory Spec2Isabelle
  imports Main
begin

section \<open>Data model\<close>

text \<open>
  Strings are lists of characters read as code points below 256. An instruction is the
  pair \<open>(command_name, command_args)\<close> that \<open>TreeParser.command\<close> builds.
\<close>

type_synonym instruction = "string \<times> string"

text \<open>
  The classes a program instance can have: the \<open>Desktop\<close>, the \<open>Terminal\<close>, a class
  made by \<open>create_note_program\<close> (named by its first argument), and any other class of
  the library, known by its name; the commands of those are a parameter of the runtime.
\<close>

datatype program_class = Desktop | Terminal | Note string | Collaborator string

record BaseProgram =
  program_class :: program_class
  buffer :: string

record RuntimeState =
  open_programs :: "string \<rightharpoonup> BaseProgram"
  current_program_name :: string
  library :: "string \<rightharpoonup> program_class"
  clipboard :: string

text \<open>
  The exceptions of the source. \<open>UnexpectedInput\<close> is the failure of the Lark parser,
  \<open>NoteRuntimeError command program\<close> the \<open>RuntimeError\<close> of a note program's
  \<open>get_command\<close>, \<open>StopIteration\<close> what \<open>send\<close> raises on a finished generator, and
  \<open>InterpretingError command_name command_args state cause\<close> the \<open>RuntimeError\<close> that
  \<open>Runtime\<close> raises from a caught exception, with the three values of its message.
\<close>

datatype error =
    ValueError
  | KeyError
  | AssertionError
  | UnexpectedInput
  | NoteRuntimeError string string
  | StopIteration
  | InterpretingError string string RuntimeState error

section \<open>Command text: the grammar of instruction lines\<close>

definition LF :: char where "LF = CHR 0x0A"
definition CR :: char where "CR = CHR 0x0D"
definition SP :: char where "SP = CHR 0x20"

text \<open>
  The complement of the regular expression class \<open>\S\<close> of \<open>command_name\<close>: the
  characters Python counts as whitespace.
\<close>

definition is_space :: "char \<Rightarrow> bool" where
  "is_space c \<longleftrightarrow>
     (of_char c :: nat) \<in> {0x09, 0x0A, 0x0B, 0x0C, 0x0D, 0x1C, 0x1D, 0x1E, 0x1F, 0x20, 0x85, 0xA0}"

text \<open>The characters that \<open>command_args: /[^\n\r]+/\<close> excludes.\<close>

definition is_eol :: "char \<Rightarrow> bool" where
  "is_eol c \<longleftrightarrow> c = LF \<or> c = CR"

text \<open>
  \<open>NEWLINE: (CR? LF)+\<close> of the common terminals. \<open>skip_newlines\<close> consumes zero or
  more line ends, \<open>NEWLINE\<close> at least one; the result is the text after the token.
\<close>

fun skip_newlines :: "string \<Rightarrow> string" where
  "skip_newlines [] = []"
| "skip_newlines [c] = (if c = LF then [] else [c])"
| "skip_newlines (c # d # r) =
     (if c = LF then skip_newlines (d # r)
      else if c = CR \<and> d = LF then skip_newlines r
      else c # d # r)"

definition NEWLINE :: "string \<Rightarrow> string option" where
  "NEWLINE s = (if skip_newlines s = s then None else Some (skip_newlines s))"

text \<open>
  \<open>command: command_name space command_args | command_name\<close>. The name is the longest
  run of non-whitespace characters. After it the lexer accepts a space or a line end;
  after one space it accepts \<open>command_args\<close> or another space, and tries the wider
  pattern \<open>command_args\<close> first, so the arguments start right after the first space and
  run to the end of the line. They must not be empty. The result is the instruction and
  the text after it.
\<close>

definition command :: "string \<Rightarrow> (instruction \<times> string) option" where
  "command s =
     (let command_name = takeWhile (\<lambda>c. \<not> is_space c) s;
          after = dropWhile (\<lambda>c. \<not> is_space c) s
      in if command_name = [] then None
         else (case after of
                 [] \<Rightarrow> Some ((command_name, []), [])
               | c # r \<Rightarrow>
                   if c = SP then
                     (let command_args = takeWhile (\<lambda>c. \<not> is_eol c) r
                      in if command_args = [] then None
                         else Some ((command_name, command_args),
                                    dropWhile (\<lambda>c. \<not> is_eol c) r))
                   else Some ((command_name, []), after)))"

lemma skip_newlines_length: "length (skip_newlines s) \<le> length s"
  by (induction s rule: skip_newlines.induct) auto

lemma NEWLINE_shorter: "NEWLINE s = Some r \<Longrightarrow> length r < length s"
proof -
  assume a: "NEWLINE s = Some r"
  then have ne: "skip_newlines s \<noteq> s" and r: "r = skip_newlines s"
    by (auto simp: NEWLINE_def split: if_splits)
  have "skip_newlines t \<noteq> t \<Longrightarrow> length (skip_newlines t) < length t" for t
  proof (induction t rule: skip_newlines.induct)
    case 1 then show ?case by simp
  next
    case (2 c) then show ?case by (simp split: if_splits)
  next
    case (3 c d r)
    then show ?case
      using skip_newlines_length [of "d # r"] skip_newlines_length [of r]
      by (auto split: if_splits simp: less_Suc_eq_le)
  qed
  with ne r show ?thesis by simp
qed

lemma command_length: "command s = Some (i, r) \<Longrightarrow> length r \<le> length s"
proof -
  assume a: "command s = Some (i, r)"
  let ?after = "dropWhile (\<lambda>c. \<not> is_space c) s"
  have 1: "length ?after \<le> length s" by (rule length_dropWhile_le)
  show ?thesis
  proof (cases ?after)
    case Nil
    with a show ?thesis by (simp add: command_def Let_def split: if_splits)
  next
    case (Cons c t)
    have 2: "length (dropWhile (\<lambda>c. \<not> is_eol c) t) \<le> length t"
      by (rule length_dropWhile_le)
    from 1 Cons have 3: "length t < length s" by simp
    from 2 3 have 4: "length (dropWhile (\<lambda>c. \<not> is_eol c) t) \<le> length s" by simp
    from a Cons 4 show ?thesis
      by (auto simp: command_def Let_def length_dropWhile_le split: if_splits)
  qed
qed

text \<open>
  \<open>parser.parse\<close>, from the start rule \<open>program: line* command?\<close> with \<open>line: command_line | blank_line\<close>. Blank lines
  contribute nothing (\<open>TreeParser.program\<close> filters them out); a command is followed by
  a line end or by the end of the text. Any other input is an error of the parser and no
  list is returned.
\<close>

function parser_parse :: "string \<Rightarrow> error + instruction list" where
  "parser_parse text =
     (if text = [] then Inr []
      else (case NEWLINE text of
              Some rest \<Rightarrow> parser_parse rest
            | None \<Rightarrow>
                (case command text of
                   None \<Rightarrow> Inl UnexpectedInput
                 | Some (i, rest) \<Rightarrow>
                     if rest = [] then Inr [i]
                     else (case NEWLINE rest of
                             None \<Rightarrow> Inl UnexpectedInput
                           | Some rest' \<Rightarrow>
                               (case parser_parse rest' of
                                  Inl e \<Rightarrow> Inl e
                                | Inr rest_instructions \<Rightarrow> Inr (i # rest_instructions))))))"
  by pat_completeness auto
termination
proof (relation "measure length")
  show "wf (measure length)" by simp
next
  fix s rest assume "NEWLINE s = Some rest"
  then show "(rest, s) \<in> measure length" by (simp add: NEWLINE_shorter)
next
  fix s :: string and x2 i rest rest'
  assume "command s = Some x2" "(i, rest) = x2" "NEWLINE rest = Some rest'"
  then show "(rest', s) \<in> measure length"
    using NEWLINE_shorter [of rest rest'] command_length [of s i rest] by auto
qed

declare parser_parse.simps [simp del]

text \<open>\<open>parse_logos\<close>: the empty text is answered without the parser.\<close>

definition parse_logos :: "string \<Rightarrow> error + instruction list" where
  "parse_logos text = (if text = [] then Inr [] else parser_parse text)"

subsection \<open>Serialized instructions\<close>

text \<open>
  The serialization of the round-trip property, in the words of the specification (the
  source has no function that writes instructions back as text): an instruction is written
  as its name, followed by a single space and its arguments when these are not empty; a
  sequence is written one instruction per line.
\<close>

definition serialize_instruction :: "instruction \<Rightarrow> string" where
  "serialize_instruction i = (if snd i = [] then fst i else fst i @ [SP] @ snd i)"

fun serialize :: "instruction list \<Rightarrow> string" where
  "serialize [] = []"
| "serialize [i] = serialize_instruction i"
| "serialize (i # j # rest) = serialize_instruction i @ [LF] @ serialize (j # rest)"

text \<open>
  What the grammar gives every parsed instruction: a name that is not empty and has no
  whitespace, and arguments without line feed or carriage return.
\<close>

definition well_formed :: "instruction \<Rightarrow> bool" where
  "well_formed i \<longleftrightarrow>
     fst i \<noteq> [] \<and> (\<forall>c \<in> set (fst i). \<not> is_space c) \<and> (\<forall>c \<in> set (snd i). \<not> is_eol c)"

section \<open>Runtime state and handlers\<close>

text \<open>
  A transform of the remaining code is the function a handler returns (\<open>None\<close> when it
  returns none). A handler mutates the one state object and returns or raises: its
  result is the pair of what it returned or raised and the state as it left it.
\<close>

type_synonym StreamTransform = "instruction list \<Rightarrow> instruction list"
type_synonym handler_result = "(error + StreamTransform option) \<times> RuntimeState"
type_synonym handler = "string \<Rightarrow> RuntimeState \<Rightarrow> handler_result"

text \<open>The properties of \<open>RuntimeState\<close>; a missing key of \<open>open_programs\<close> raises.\<close>

definition current_program :: "RuntimeState \<Rightarrow> error + BaseProgram" where
  "current_program state =
     (case open_programs state (current_program_name state) of
        None \<Rightarrow> Inl KeyError
      | Some p \<Rightarrow> Inr p)"

definition current_buffer :: "RuntimeState \<Rightarrow> error + string" where
  "current_buffer state =
     (case current_program state of Inl e \<Rightarrow> Inl e | Inr p \<Rightarrow> Inr (buffer p))"

definition set_current_buffer :: "string \<Rightarrow> RuntimeState \<Rightarrow> error + RuntimeState" where
  "set_current_buffer new_buffer state =
     (case current_program state of
        Inl e \<Rightarrow> Inl e
      | Inr p \<Rightarrow>
          Inr (state\<lparr>open_programs :=
                 (open_programs state)(current_program_name state \<mapsto> p\<lparr>buffer := new_buffer\<rparr>)\<rparr>))"

definition clear_buffer :: "RuntimeState \<Rightarrow> error + RuntimeState" where
  "clear_buffer state = set_current_buffer [] state"

definition functional_command :: "(string \<Rightarrow> string \<Rightarrow> error + string) \<Rightarrow> handler" where
  "functional_command func args state =
     (case current_buffer state of
        Inl e \<Rightarrow> (Inl e, state)
      | Inr old_buffer \<Rightarrow>
          (case func args old_buffer of
             Inl e \<Rightarrow> (Inl e, state)
           | Inr new_buffer \<Rightarrow>
               (case set_current_buffer new_buffer state of
                  Inl e \<Rightarrow> (Inl e, state)
                | Inr state' \<Rightarrow> (Inr None, state'))))"

subsection \<open>Keywords\<close>

definition rem :: handler where
  "rem = functional_command (\<lambda>args buffer. Inr buffer)"

definition cut :: handler where
  "cut args state =
     (if \<not> (args = [] \<or> args = ''all'') then (Inl AssertionError, state)
      else (case current_buffer state of
              Inl e \<Rightarrow> (Inl e, state)
            | Inr b \<Rightarrow>
                (let state1 = state\<lparr>clipboard := b\<rparr>
                 in case clear_buffer state1 of
                      Inl e \<Rightarrow> (Inl e, state1)
                    | Inr state2 \<Rightarrow> (Inr None, state2))))"

definition copy :: handler where
  "copy args state =
     (if \<not> (args = [] \<or> args = ''all'') then (Inl AssertionError, state)
      else (case current_buffer state of
              Inl e \<Rightarrow> (Inl e, state)
            | Inr b \<Rightarrow> (Inr None, state\<lparr>clipboard := b\<rparr>)))"

definition paste :: handler where
  "paste args state =
     (if args \<noteq> [] then (Inl AssertionError, state)
      else (case set_current_buffer (clipboard state) state of
              Inl e \<Rightarrow> (Inl e, state)
            | Inr state' \<Rightarrow> (Inr None, state')))"

definition minimise :: handler where
  "minimise args state = (Inr None, state\<lparr>current_program_name := ''Desktop''\<rparr>)"

definition switch :: handler where
  "switch args state =
     (if SP \<in> set args then (Inl AssertionError, state)
      else (Inr None, state\<lparr>current_program_name := args\<rparr>))"

definition name :: handler where
  "name args state =
     (if args \<noteq> [] then (Inl AssertionError, state)
      else (case set_current_buffer (current_program_name state) state of
              Inl e \<Rightarrow> (Inl e, state)
            | Inr state' \<Rightarrow> (Inr None, state')))"

text \<open>
  \<open>execute\<close> appends a space to non-empty arguments that do not end with one, parses
  the arguments followed by the clipboard, and returns the transform that puts the first
  parsed instruction (\<open>new_command_line[:1]\<close>: none when the list is empty) before the
  current code.
\<close>

definition execute :: handler where
  "execute args state =
     (let args' = (if args \<noteq> [] \<and> last args \<noteq> SP then args @ [SP] else args)
      in case parse_logos (args' @ clipboard state) of
           Inl e \<Rightarrow> (Inl e, state)
         | Inr new_command_line \<Rightarrow>
             (Inr (Some (\<lambda>current_code. take 1 new_command_line @ current_code)), state))"

definition KEYWORDS :: "string \<rightharpoonup> handler" where
  "KEYWORDS = map_of
     [(''rem'', rem), (''cut'', cut), (''copy'', copy), (''paste'', paste),
      (''minimise'', minimise), (''switch'', switch), (''name'', name),
      (''execute'', execute)]"

subsection \<open>Programs\<close>

text \<open>
  The class \<open>create_note_program name buffer\<close> makes: its \<open>__init__\<close> overwrites the
  initial buffer with the \<open>buffer\<close> given when the class was made.
\<close>

definition create_note_program :: "string \<Rightarrow> string \<Rightarrow> string \<Rightarrow> BaseProgram" where
  "create_note_program name_of_note buffer_of_note initial_buffer =
     \<lparr>program_class = Note name_of_note, buffer = buffer_of_note\<rparr>"

text \<open>The handler \<open>Desktop.get_command\<close> returns for \<open>command_name\<close>.\<close>

definition program_opener :: "string \<Rightarrow> handler" where
  "program_opener command_name args state =
     (if command_name \<in> dom (open_programs state) then (Inl ValueError, state)
      else
        (let new_program =
           (case library state command_name of
              Some constructor \<Rightarrow> \<lparr>program_class = constructor, buffer = args\<rparr>
            | None \<Rightarrow> create_note_program command_name args args)
         in (Inr None,
             state\<lparr>open_programs := (open_programs state)(command_name \<mapsto> new_program),
                   current_program_name := command_name\<rparr>)))"

text \<open>\<open>Terminal._run\<close>: the parsed buffer replaces the running code.\<close>

definition Terminal_run :: handler where
  "Terminal_run args state =
     (if args \<noteq> [] then (Inl AssertionError, state)
      else (case current_buffer state of
              Inl e \<Rightarrow> (Inl e, state)
            | Inr b \<Rightarrow>
                (case parse_logos b of
                   Inl e \<Rightarrow> (Inl e, state)
                 | Inr new_instructions \<Rightarrow>
                     (case clear_buffer state of
                        Inl e \<Rightarrow> (Inl e, state)
                      | Inr state' \<Rightarrow>
                          (Inr (Some (\<lambda>old_instructions. new_instructions)), state')))))"

text \<open>
  \<open>get_command\<close> by class. \<open>commands\<close> gives the command table of every other library
  class: \<open>commands c n\<close> is \<open>None\<close> where \<open>_commands[n]\<close> of class \<open>c\<close> raises
  \<open>KeyError\<close>.
\<close>

definition get_command ::
  "(string \<Rightarrow> string \<rightharpoonup> handler) \<Rightarrow> BaseProgram \<Rightarrow> string \<Rightarrow> error + handler" where
  "get_command commands p command_name =
     (case program_class p of
        Desktop \<Rightarrow> Inr (program_opener command_name)
      | Note n \<Rightarrow> Inl (NoteRuntimeError command_name n)
      | Terminal \<Rightarrow>
          (if command_name = ''run'' then Inr Terminal_run else Inl KeyError)
      | Collaborator c \<Rightarrow>
          (case commands c command_name of None \<Rightarrow> Inl KeyError | Some h \<Rightarrow> Inr h))"

definition class_name :: "program_class \<Rightarrow> string" where
  "class_name c =
     (case c of Desktop \<Rightarrow> ''Desktop'' | Terminal \<Rightarrow> ''Terminal''
      | Note n \<Rightarrow> n | Collaborator n \<Rightarrow> n)"

definition STANDARD_LIBRARY :: "string \<rightharpoonup> program_class" where
  "STANDARD_LIBRARY = map_of
     [(''Email'', Collaborator ''Email''), (''Editor'', Collaborator ''Editor''),
      (''Calculator'', Collaborator ''Calculator''), (''Terminal'', Terminal),
      (''Clock'', Collaborator ''Clock''), (''Characters'', Collaborator ''Characters''),
      (''Mines'', Collaborator ''Mines''), (''Assembler'', Collaborator ''Assembler''),
      (''Files'', Collaborator ''Files''), (''Browser'', Collaborator ''Browser'')]"

section \<open>The runtime and the interpreter\<close>

text \<open>The state \<open>Runtime\<close> builds before its loop.\<close>

definition Runtime_state :: "program_class \<Rightarrow> (string \<rightharpoonup> program_class) \<Rightarrow> RuntimeState" where
  "Runtime_state initial_program lib =
     \<lparr>open_programs =
        [class_name initial_program \<mapsto> \<lparr>program_class = initial_program, buffer = []\<rparr>],
      current_program_name = class_name initial_program,
      library = lib,
      clipboard = []\<rparr>"

text \<open>
  One round of the loop of \<open>Runtime\<close>, for the tuple sent in: the handler comes from
  \<open>KEYWORDS\<close> or from the current program, it is called, and any exception of the two is
  raised again as the \<open>RuntimeError\<close> that names the command, its arguments and the state.
\<close>

definition Runtime_send ::
  "(string \<Rightarrow> string \<rightharpoonup> handler) \<Rightarrow> instruction \<Rightarrow> RuntimeState \<Rightarrow> handler_result" where
  "Runtime_send commands command_tuple state =
     (let command_name = fst command_tuple; command_args = snd command_tuple;
          found =
            (case KEYWORDS command_name of
               Some h \<Rightarrow> Inr h
             | None \<Rightarrow>
                 (case current_program state of
                    Inl e \<Rightarrow> Inl e
                  | Inr p \<Rightarrow> get_command commands p command_name))
      in case found of
           Inl e \<Rightarrow> (Inl (InterpretingError command_name command_args state e), state)
         | Inr h \<Rightarrow>
             (case h command_args state of
                (Inl e, state') \<Rightarrow>
                  (Inl (InterpretingError command_name command_args state' e), state')
              | (Inr remaining_code_changes, state') \<Rightarrow>
                  (Inr remaining_code_changes, state')))"

text \<open>
  The interpreter: the code still to run, the history, and the runtime generator, which
  is its state and whether it is still suspended at its \<open>yield\<close> (it is finished once an
  exception left it).
\<close>

record Interpreter =
  remaining_code :: "instruction list"
  history :: "instruction list"
  runtime_state :: RuntimeState
  runtime_suspended :: bool

definition Interpreter_init ::
  "instruction list \<Rightarrow> program_class \<Rightarrow> (string \<rightharpoonup> program_class) \<Rightarrow> Interpreter" where
  "Interpreter_init code initial_program lib =
     \<lparr>remaining_code = code, history = [],
      runtime_state = Runtime_state initial_program lib,
      runtime_suspended = True\<rparr>"

text \<open>
  \<open>run_once\<close>. Without an explicit instruction the head of the remaining code is taken
  off first (unpacking an empty list raises \<open>ValueError\<close> and changes nothing); the
  instruction goes to the history and to the runtime; a transform that comes back is
  applied to the remaining code. The result is the exception that left \<open>run_once\<close>, if
  any, and the interpreter afterwards.
\<close>

definition run_once ::
  "(string \<Rightarrow> string \<rightharpoonup> handler) \<Rightarrow> instruction option \<Rightarrow> Interpreter
     \<Rightarrow> error option \<times> Interpreter" where
  "run_once commands command_and_args self =
     (case (case command_and_args of
              Some i \<Rightarrow> Some (i, remaining_code self)
            | None \<Rightarrow>
                (case remaining_code self of
                   [] \<Rightarrow> None
                 | i # rest \<Rightarrow> Some (i, rest))) of
        None \<Rightarrow> (Some ValueError, self)
      | Some (i, rest) \<Rightarrow>
          (let self1 = self\<lparr>remaining_code := rest, history := history self @ [i]\<rparr>
           in if \<not> runtime_suspended self1 then (Some StopIteration, self1)
              else
                (case Runtime_send commands i (runtime_state self1) of
                   (Inl e, state') \<Rightarrow>
                     (Some e, self1\<lparr>runtime_state := state', runtime_suspended := False\<rparr>)
                 | (Inr None, state') \<Rightarrow>
                     (None, self1\<lparr>runtime_state := state'\<rparr>)
                 | (Inr (Some remaining_code_changes), state') \<Rightarrow>
                     (None, self1\<lparr>runtime_state := state',
                                  remaining_code := remaining_code_changes rest\<rparr>))))"

subsection \<open>Predicates on states\<close>

text \<open>A library without other classes: every lookup in a command table fails.\<close>

definition no_collaborators :: "string \<Rightarrow> string \<rightharpoonup> handler" where
  "no_collaborators c n = None"

text \<open>The invariant of the data model: the current program name is a key of the open programs.\<close>

definition resolves :: "RuntimeState \<Rightarrow> bool" where
  "resolves state \<longleftrightarrow> current_program_name state \<in> dom (open_programs state)"

definition desktop_open :: "RuntimeState \<Rightarrow> bool" where
  "desktop_open state \<longleftrightarrow> ''Desktop'' \<in> dom (open_programs state)"

definition same_names :: "RuntimeState \<Rightarrow> RuntimeState \<Rightarrow> bool" where
  "same_names s s' \<longleftrightarrow>
     dom (open_programs s') = dom (open_programs s)
     \<and> current_program_name s' = current_program_name s"

section \<open>Arithmetic: decimal numbers\<close>

























section \<open>Arithmetic: the calculation grammar\<close>










section \<open>Arithmetic: the transformer and the parser\<close>


















section \<open>Evaluation rules\<close>

lemmas lexer_defs = command_def NEWLINE_def is_space_def is_eol_def LF_def CR_def SP_def

lemmas state_defs = current_program_def current_buffer_def set_current_buffer_def
  clear_buffer_def functional_command_def


lemmas initial_defs = Interpreter_init_def Runtime_state_def class_name_def

subsection \<open>Handlers keep the names\<close>

lemma KEYWORDS_cases: "KEYWORDS n = Some h \<Longrightarrow>
  (n = ''rem'' \<and> h = rem) \<or> (n = ''cut'' \<and> h = cut) \<or> (n = ''copy'' \<and> h = copy) \<or>
  (n = ''paste'' \<and> h = paste) \<or> (n = ''minimise'' \<and> h = minimise) \<or>
  (n = ''switch'' \<and> h = switch) \<or> (n = ''name'' \<and> h = name) \<or> (n = ''execute'' \<and> h = execute)"
  by (simp add: KEYWORDS_def split: if_splits)

lemma same_names_refl [simp]: "same_names s s"
  by (simp add: same_names_def)

lemma same_names_clipboard [simp]:
  "same_names (s\<lparr>clipboard := b\<rparr>) s' = same_names s s'"
  "same_names s (s'\<lparr>clipboard := b\<rparr>) = same_names s s'"
  by (simp_all add: same_names_def)

lemma set_current_buffer_names:
  assumes "set_current_buffer b s = Inr s'"
  shows "same_names s s'"
proof -
  from assms obtain p where p: "open_programs s (current_program_name s) = Some p"
    and s': "s' = s\<lparr>open_programs := (open_programs s)(current_program_name s \<mapsto> p\<lparr>buffer := b\<rparr>)\<rparr>"
    by (auto simp: set_current_buffer_def current_program_def split: option.splits)
  from p have "current_program_name s \<in> dom (open_programs s)" by blast
  then show ?thesis
    by (simp add: s' insert_absorb same_names_def)
qed

lemma functional_command_names:
  "functional_command g a s = (r, s') \<Longrightarrow> same_names s s'"
  by (auto simp: functional_command_def split: sum.splits dest: set_current_buffer_names)

lemma cut_names: "cut a s = (r, s') \<Longrightarrow> same_names s s'"
  using set_current_buffer_names [of "[]" "s\<lparr>clipboard := b\<rparr>" s' for b]
  by (auto simp: cut_def clear_buffer_def Let_def split: if_splits sum.splits)

lemma copy_names: "copy a s = (r, s') \<Longrightarrow> same_names s s'"
  by (auto simp: copy_def split: if_splits sum.splits)

lemma paste_names: "paste a s = (r, s') \<Longrightarrow> same_names s s'"
  by (auto simp: paste_def split: if_splits sum.splits dest: set_current_buffer_names)

lemma name_names: "name a s = (r, s') \<Longrightarrow> same_names s s'"
  by (auto simp: name_def split: if_splits sum.splits dest: set_current_buffer_names)

lemma execute_names: "execute a s = (r, s') \<Longrightarrow> same_names s s'"
  by (auto simp: execute_def Let_def split: if_splits sum.splits)

lemma Terminal_run_names: "Terminal_run a s = (r, s') \<Longrightarrow> same_names s s'"
  by (auto simp: Terminal_run_def clear_buffer_def split: if_splits sum.splits
           dest: set_current_buffer_names)

lemma program_opener_resolves:
  "program_opener X a s = (r, s') \<Longrightarrow> resolves s \<Longrightarrow> desktop_open s \<Longrightarrow>
     resolves s' \<and> desktop_open s'"
  by (auto simp: program_opener_def resolves_def desktop_open_def Let_def split: if_splits)

lemma same_names_resolves:
  "same_names s s' \<Longrightarrow> resolves s \<Longrightarrow> desktop_open s \<Longrightarrow> resolves s' \<and> desktop_open s'"
  by (simp add: same_names_def resolves_def desktop_open_def)

subsection \<open>Handlers raise before they write\<close>

lemma current_program_clipboard [simp]:
  "current_program (s\<lparr>clipboard := b\<rparr>) = current_program s"
  by (simp add: current_program_def)



subsection \<open>Parsing serialized instructions\<close>

lemma is_space_simps [simp]: "is_space LF" "is_space CR" "is_space SP"
  by (simp_all add: is_space_def LF_def CR_def SP_def)

lemma is_eol_simps [simp]: "is_eol LF" "is_eol CR" "\<not> is_eol SP"
  by (simp_all add: is_eol_def LF_def CR_def SP_def)

lemma LF_CR [simp]: "LF \<noteq> CR" "CR \<noteq> LF" "SP \<noteq> LF" "SP \<noteq> CR"
  by (simp_all add: LF_def CR_def SP_def)

lemma is_eol_is_space: "is_eol c \<Longrightarrow> is_space c"
  by (auto simp: is_eol_def)

lemma command_well_formed:
  assumes "command s = Some (i, r)"
  shows "well_formed i"
proof -
  let ?n = "takeWhile (\<lambda>c. \<not> is_space c) s"
  have n: "\<forall>c \<in> set ?n. \<not> is_space c" by (auto dest: set_takeWhileD)
  have a: "\<forall>c \<in> set (takeWhile (\<lambda>c. \<not> is_eol c) t). \<not> is_eol c" for t
    by (auto dest: set_takeWhileD)
  from assms n a show ?thesis
    by (auto simp: command_def Let_def well_formed_def split: if_splits list.splits)
qed

lemma parser_parse_well_formed:
  "parser_parse s = Inr instrs \<Longrightarrow> list_all well_formed instrs"
proof (induction s arbitrary: instrs rule: parser_parse.induct)
  case (1 s)
  note prems = "1.prems" [unfolded parser_parse.simps [of s]]
  show ?case
  proof (cases "s = []")
    case True
    with prems show ?thesis by simp
  next
    case ne: False
    show ?thesis
    proof (cases "NEWLINE s")
      case (Some rest)
      with prems ne have "parser_parse rest = Inr instrs" by simp
      with "1.IH"(2) [OF ne Some] show ?thesis .
    next
      case None
      show ?thesis
      proof (cases "command s")
        case None' : None
        with prems ne None show ?thesis by simp
      next
        case (Some x)
        obtain i rest where x: "x = (i, rest)" by (cases x)
        have wf: "well_formed i" using Some x command_well_formed by blast
        show ?thesis
        proof (cases "rest = []")
          case True
          with prems ne None Some x wf show ?thesis by auto
        next
          case rne: False
          show ?thesis
          proof (cases "NEWLINE rest")
            case None'' : None
            with prems ne None Some x rne show ?thesis by simp
          next
            case s2: (Some rest')
            show ?thesis
            proof (cases "parser_parse rest'")
              case (Inl e)
              with prems ne None Some x rne s2 show ?thesis by simp
            next
              case (Inr more)
              with prems ne None Some x rne s2 have instrs: "instrs = i # more" by simp
              from "1.IH"(1) [OF ne None Some x [symmetric] rne s2 Inr]
              have "list_all well_formed more" .
              with wf instrs show ?thesis by simp
            qed
          qed
        qed
      qed
    qed
  qed
qed

lemma skip_newlines_id:
  "s = [] \<or> \<not> is_space (hd s) \<Longrightarrow> skip_newlines s = s"
  by (cases s rule: skip_newlines.cases) auto

lemma NEWLINE_none: "s = [] \<or> \<not> is_space (hd s) \<Longrightarrow> NEWLINE s = None"
  by (simp add: NEWLINE_def skip_newlines_id)

lemma NEWLINE_LF:
  "s \<noteq> [] \<Longrightarrow> \<not> is_space (hd s) \<Longrightarrow> NEWLINE (LF # s) = Some s"
  by (cases s) (auto simp: NEWLINE_def skip_newlines_id)

lemma serialize_instruction_hd:
  "well_formed i \<Longrightarrow> serialize_instruction i \<noteq> [] \<and> \<not> is_space (hd (serialize_instruction i))"
  by (cases "fst i") (auto simp: serialize_instruction_def well_formed_def)

lemma serialize_hd:
  "list_all well_formed (i # rest) \<Longrightarrow>
     serialize (i # rest) \<noteq> [] \<and> \<not> is_space (hd (serialize (i # rest)))"
  using serialize_instruction_hd [of i]
  by (cases rest) auto

lemma takeWhile_name:
  "\<forall>c \<in> set n. \<not> is_space c \<Longrightarrow> t = [] \<or> is_space (hd t) \<Longrightarrow>
     takeWhile (\<lambda>c. \<not> is_space c) (n @ t) = n \<and> dropWhile (\<lambda>c. \<not> is_space c) (n @ t) = t"
  by (cases t) (auto simp: takeWhile_append2 dropWhile_append2 takeWhile_eq_all_conv)

lemma takeWhile_args:
  "\<forall>c \<in> set a. \<not> is_eol c \<Longrightarrow> t = [] \<or> is_eol (hd t) \<Longrightarrow>
     takeWhile (\<lambda>c. \<not> is_eol c) (a @ t) = a \<and> dropWhile (\<lambda>c. \<not> is_eol c) (a @ t) = t"
  by (cases t) (auto simp: takeWhile_append2 dropWhile_append2 takeWhile_eq_all_conv)

lemma command_split:
  assumes "takeWhile (\<lambda>c. \<not> is_space c) s = n" and "dropWhile (\<lambda>c. \<not> is_space c) s = r"
  shows "command s =
     (if n = [] then None
      else (case r of
              [] \<Rightarrow> Some ((n, []), [])
            | c # r' \<Rightarrow>
                if c = SP then
                  (if takeWhile (\<lambda>c. \<not> is_eol c) r' = [] then None
                   else Some ((n, takeWhile (\<lambda>c. \<not> is_eol c) r'),
                              dropWhile (\<lambda>c. \<not> is_eol c) r'))
                else Some ((n, []), r)))"
  using assms by (auto simp: command_def Let_def split: list.splits)

lemma command_serialized:
  assumes "well_formed i" and "t = [] \<or> is_eol (hd t)"
  shows "command (serialize_instruction i @ t) = Some (i, t)"
proof -
  obtain n a where i: "i = (n, a)" by (cases i)
  from assms(1) i have n: "\<forall>c \<in> set n. \<not> is_space c" "n \<noteq> []"
    and a: "\<forall>c \<in> set a. \<not> is_eol c"
    by (simp_all add: well_formed_def)
  show ?thesis
  proof (cases "a = []")
    case True
    from assms(2) have sp: "t = [] \<or> is_space (hd t)" by (auto dest: is_eol_is_space)
    note tw = takeWhile_name [OF n(1) sp]
    have "command (n @ t) = Some ((n, []), t)"
      using command_split [OF conjunct1 [OF tw] conjunct2 [OF tw]] n(2) assms(2)
      by (cases t) auto
    with True i show ?thesis by (simp add: serialize_instruction_def)
  next
    case False
    have tw: "takeWhile (\<lambda>c. \<not> is_space c) (n @ (SP # a @ t)) = n
          \<and> dropWhile (\<lambda>c. \<not> is_space c) (n @ (SP # a @ t)) = SP # a @ t"
      by (rule takeWhile_name [OF n(1)]) simp
    note ta = takeWhile_args [OF a assms(2)]
    have "command (n @ (SP # a @ t)) = Some ((n, a), t)"
      using command_split [OF conjunct1 [OF tw] conjunct2 [OF tw]] ta n(2) False by simp
    with False i show ?thesis by (simp add: serialize_instruction_def)
  qed
qed

lemma parser_parse_serialize:
  "list_all well_formed (i # rest) \<Longrightarrow> parser_parse (serialize (i # rest)) = Inr (i # rest)"
proof (induction rest arbitrary: i)
  case Nil
  then have wf: "well_formed i" by simp
  from serialize_instruction_hd [OF wf] have h: "NEWLINE (serialize_instruction i) = None"
    by (simp add: NEWLINE_none)
  from command_serialized [OF wf, of "[]"] have c: "command (serialize_instruction i) = Some (i, [])"
    by simp
  from serialize_instruction_hd [OF wf] h c show ?case
    by (simp add: parser_parse.simps [of "serialize_instruction i"])
next
  case (Cons j rest)
  then have wf: "well_formed i" and wfr: "list_all well_formed (j # rest)" by simp_all
  let ?t = "LF # serialize (j # rest)"
  let ?s = "serialize_instruction i @ ?t"
  have ne: "?s \<noteq> []" by simp
  have hd: "\<not> is_space (hd ?s)" using serialize_instruction_hd [OF wf] by (simp add: hd_append)
  have h: "NEWLINE ?s = None" using hd by (simp add: NEWLINE_none)
  have c: "command ?s = Some (i, ?t)" by (rule command_serialized [OF wf]) simp
  have n: "NEWLINE ?t = Some (serialize (j # rest))"
    using serialize_hd [OF wfr] by (simp add: NEWLINE_LF)
  have r: "parser_parse (serialize (j # rest)) = Inr (j # rest)" by (rule Cons.IH [OF wfr])
  have "parser_parse ?s = Inr (i # j # rest)"
    by (subst parser_parse.simps) (simp add: h c n r)
  then show ?case by simp
qed

subsection \<open>Evaluating the calculator\<close>



subsection \<open>Parentheses in a text that evaluates\<close>








section \<open>The claims\<close>

text \<open>
  C10. In a running interpreter whose clipboard is empty, a step on \<open>execute\<close> with empty
  arguments raises nothing and leaves the runtime state and the rest of the code as they
  were: the head is taken off, the instruction is recorded in the history, and nothing is
  put before the rest.
\<close>

theorem execute_empty_is_noop:
  assumes "clipboard (runtime_state self) = []"
    and "runtime_suspended self"
    and "remaining_code self = (''execute'', []) # rest"
  shows "run_once commands None self =
           (None, self\<lparr>remaining_code := rest,
                        history := history self @ [(''execute'', [])]\<rparr>)"
  using assms
  by (simp add: run_once_def Runtime_send_def KEYWORDS_def execute_def parse_logos_def)

theorem execute_empty_is_noop_witness:
  "clipboard (runtime_state
     (Interpreter_init [(''execute'', []), (''rem'', ''x'')] Desktop STANDARD_LIBRARY)) = []
   \<and> runtime_suspended
     (Interpreter_init [(''execute'', []), (''rem'', ''x'')] Desktop STANDARD_LIBRARY)
   \<and> remaining_code
     (Interpreter_init [(''execute'', []), (''rem'', ''x'')] Desktop STANDARD_LIBRARY)
       = (''execute'', []) # [(''rem'', ''x'')]
   \<and> run_once no_collaborators None
     (Interpreter_init [(''execute'', []), (''rem'', ''x'')] Desktop STANDARD_LIBRARY) =
     (None, (Interpreter_init [(''execute'', []), (''rem'', ''x'')] Desktop STANDARD_LIBRARY)
        \<lparr>remaining_code := [(''rem'', ''x'')], history := [] @ [(''execute'', [])]\<rparr>)"
  using execute_empty_is_noop
    [of "Interpreter_init [(''execute'', []), (''rem'', ''x'')] Desktop STANDARD_LIBRARY"
        "[(''rem'', ''x'')]" no_collaborators]
  by (simp add: initial_defs)

text \<open>
  C3. A transform that the runtime returns for the head \<open>A\<close> of the remaining code is
  applied to the code after \<open>A\<close>: when the transform puts \<open>X\<close> in front, the remaining
  code after the step is \<open>X\<close> followed by what followed \<open>A\<close>, and \<open>A\<close> is not in it again.
\<close>

theorem transform_applies_after_pop:
  assumes "runtime_suspended self"
    and "remaining_code self = A # rest"
    and "Runtime_send commands A (runtime_state self) = (Inr (Some t), state')"
  shows "fst (run_once commands None self) = None
         \<and> remaining_code (snd (run_once commands None self)) = t rest
         \<and> (t = (\<lambda>old. X # old) \<longrightarrow>
              remaining_code (snd (run_once commands None self)) = X # rest
              \<and> remaining_code (snd (run_once commands None self)) \<noteq> X # A # rest)"
  using assms by (simp add: run_once_def)

theorem transform_applies_after_pop_witness:
  "remaining_code (snd (run_once no_collaborators None
      ((Interpreter_init [(''execute'', []), (''B'', []), (''C'', [])] Desktop STANDARD_LIBRARY)
         \<lparr>runtime_state := (Runtime_state Desktop STANDARD_LIBRARY)\<lparr>clipboard := ''X''\<rparr>\<rparr>)))
     = [(''X'', []), (''B'', []), (''C'', [])]"
proof -
  let ?st = "(Runtime_state Desktop STANDARD_LIBRARY)\<lparr>clipboard := ''X''\<rparr>"
  let ?self = "(Interpreter_init [(''execute'', []), (''B'', []), (''C'', [])] Desktop
                  STANDARD_LIBRARY)\<lparr>runtime_state := ?st\<rparr>"
  have 1: "runtime_suspended ?self" by (simp add: initial_defs)
  have 2: "remaining_code ?self = (''execute'', []) # [(''B'', []), (''C'', [])]"
    by (simp add: initial_defs)
  have 3: "Runtime_send no_collaborators (''execute'', []) (runtime_state ?self)
             = (Inr (Some (\<lambda>old. (''X'', []) # old)), ?st)"
    by (simp add: Runtime_send_def KEYWORDS_def execute_def parse_logos_def
          parser_parse.simps lexer_defs fun_eq_iff)
  from transform_applies_after_pop [OF 1 2 3, of "(''X'', [])"] show ?thesis by simp
qed



text \<open>
  C4, as the code has it. The state a runtime starts from with the Desktop has the current
  program among the open programs, and so has the state after any round of the runtime
  (whether the handler returned or raised) from a state that has it and has the Desktop
  open, when the commands of the other library classes keep the two properties, unless
  the round is a \<open>switch\<close> to a name that is not an open program.
\<close>

theorem current_program_resolves_except_switch:
  assumes inv: "resolves state" "desktop_open state"
    and collaborators:
      "\<forall>c n h a s r s'. commands c n = Some h \<and> h a s = (r, s') \<and> resolves s \<and> desktop_open s
         \<longrightarrow> resolves s' \<and> desktop_open s'"
    and step: "Runtime_send commands (command_name, args) state = (r, state')"
    and sw: "command_name = ''switch'' \<longrightarrow> args \<in> dom (open_programs state)"
  shows "resolves (Runtime_state Desktop lib) \<and> desktop_open (Runtime_state Desktop lib)
         \<and> resolves state' \<and> desktop_open state'"
proof -
  have init: "resolves (Runtime_state Desktop lib) \<and> desktop_open (Runtime_state Desktop lib)"
    by (simp add: resolves_def desktop_open_def initial_defs)
  have "resolves state' \<and> desktop_open state'"
  proof (cases "KEYWORDS command_name")
    case (Some h)
    from step Some have h: "\<exists>r. h args state = (r, state')"
      by (auto simp: Runtime_send_def split: sum.splits prod.splits)
    then obtain r0 where r0: "h args state = (r0, state')" by blast
    from KEYWORDS_cases [OF Some] show ?thesis
    proof (elim disjE conjE)
      assume "command_name = ''switch''" "h = switch"
      with r0 sw inv show ?thesis
        by (auto simp: switch_def resolves_def desktop_open_def split: if_splits)
    next
      assume "command_name = ''minimise''" "h = minimise"
      with r0 inv show ?thesis
        by (auto simp: minimise_def resolves_def desktop_open_def)
    qed (use r0 inv in \<open>auto simp: rem_def dest!: functional_command_names cut_names copy_names
           paste_names name_names execute_names dest: same_names_resolves\<close>)
  next
    case None
    show ?thesis
    proof (cases "current_program state")
      case (Inl e)
      with step None have "state' = state" by (simp add: Runtime_send_def)
      with inv show ?thesis by simp
    next
      case (Inr p)
      show ?thesis
      proof (cases "get_command commands p command_name")
        case (Inl e)
        with step None Inr have "state' = state" by (simp add: Runtime_send_def)
        with inv show ?thesis by simp
      next
        case (Inr h)
        with step None \<open>current_program state = Inr p\<close>
        obtain r0 where r0: "h args state = (r0, state')"
          by (auto simp: Runtime_send_def split: sum.splits prod.splits)
        from Inr consider "h = program_opener command_name" | "h = Terminal_run"
          | c where "commands c command_name = Some h"
          by (auto simp: get_command_def split: program_class.splits if_splits option.splits)
        then show ?thesis
        proof cases
          case 1 with r0 inv show ?thesis by (auto dest: program_opener_resolves)
        next
          case 2 with r0 inv show ?thesis
            by (auto dest!: Terminal_run_names dest: same_names_resolves)
        next
          case 3 with r0 inv collaborators show ?thesis by blast
        qed
      qed
    qed
  qed
  with init show ?thesis by simp
qed

theorem current_program_resolves_except_switch_witness:
  "resolves (snd (Runtime_send no_collaborators (''minimise'', [])
       (snd (Runtime_send no_collaborators (''Terminal'', ''x'')
          (Runtime_state Desktop STANDARD_LIBRARY)))))"
proof -
  let ?s0 = "Runtime_state Desktop STANDARD_LIBRARY"
  let ?s1 = "snd (Runtime_send no_collaborators (''Terminal'', ''x'') ?s0)"
  let ?s2 = "snd (Runtime_send no_collaborators (''minimise'', []) ?s1)"
  have c: "\<forall>c n h a s r s'. no_collaborators c n = Some h \<and> h a s = (r, s')
             \<and> resolves s \<and> desktop_open s \<longrightarrow> resolves s' \<and> desktop_open s'"
    by (simp add: no_collaborators_def)
  have 0: "resolves ?s0" "desktop_open ?s0"
    by (simp_all add: resolves_def desktop_open_def initial_defs)
  have 1: "resolves ?s1 \<and> desktop_open ?s1"
    using current_program_resolves_except_switch
      [OF 0 c, of "''Terminal''" "''x''" "fst (Runtime_send no_collaborators (''Terminal'', ''x'') ?s0)" ?s1]
    by simp
  then have 2: "resolves ?s1" "desktop_open ?s1" by simp_all
  show ?thesis
    using current_program_resolves_except_switch
      [OF 2 c, of "''minimise''" "[]" "fst (Runtime_send no_collaborators (''minimise'', []) ?s1)" ?s2]
    by simp
qed

text \<open>
  On the state a runtime starts from, \<open>switch foo\<close> raises nothing and leaves a current
  program name that is not among the open programs.
\<close>

theorem switch_breaks_resolution:
  "fst (run_once no_collaborators None
          (Interpreter_init [(''switch'', ''foo'')] Desktop STANDARD_LIBRARY)) = None
   \<and> \<not> resolves (runtime_state (snd (run_once no_collaborators None
          (Interpreter_init [(''switch'', ''foo'')] Desktop STANDARD_LIBRARY))))"
  by (simp add: run_once_def Runtime_send_def KEYWORDS_def switch_def resolves_def
        initial_defs SP_def)

text \<open>
  C1, as the code has it. \<open>run\<close> is not among the keywords; it is the one command of the
  Terminal. In a running interpreter whose current program is a Terminal with a buffer that
  parses, a step on \<open>run\<close> with empty arguments replaces all of the remaining code by the
  parsed buffer and empties the buffer.
\<close>

theorem run_is_a_terminal_command:
  assumes "runtime_suspended self"
    and "remaining_code self = (''run'', []) # rest"
    and "open_programs (runtime_state self) (current_program_name (runtime_state self)) = Some p"
    and "program_class p = Terminal"
    and "parse_logos (buffer p) = Inr new_instructions"
  shows "KEYWORDS ''run'' = None
         \<and> run_once commands None self =
             (None,
              self\<lparr>remaining_code := new_instructions,
                   history := history self @ [(''run'', [])],
                   runtime_state := (runtime_state self)
                     \<lparr>open_programs := (open_programs (runtime_state self))
                        (current_program_name (runtime_state self) \<mapsto> p\<lparr>buffer := []\<rparr>)\<rparr>\<rparr>)"
  using assms
  by (simp add: run_once_def Runtime_send_def KEYWORDS_def get_command_def Terminal_run_def
        state_defs)

theorem run_is_a_terminal_command_witness:
  "remaining_code (snd (run_once no_collaborators None
     \<lparr>remaining_code = [(''run'', []), (''rem'', ''x'')], history = [],
      runtime_state =
        \<lparr>open_programs = [''Terminal'' \<mapsto> \<lparr>program_class = Terminal, buffer = ''a b''\<rparr>],
         current_program_name = ''Terminal'', library = STANDARD_LIBRARY, clipboard = []\<rparr>,
      runtime_suspended = True\<rparr>)) = [(''a'', ''b'')]"
proof -
  let ?p = "\<lparr>program_class = Terminal, buffer = ''a b''\<rparr>"
  let ?st = "\<lparr>open_programs = [''Terminal'' \<mapsto> ?p],
              current_program_name = ''Terminal'', library = STANDARD_LIBRARY, clipboard = []\<rparr>"
  let ?self = "\<lparr>remaining_code = [(''run'', []), (''rem'', ''x'')], history = [],
                runtime_state = ?st, runtime_suspended = True\<rparr>"
  have 1: "runtime_suspended ?self" by simp
  have 2: "remaining_code ?self = (''run'', []) # [(''rem'', ''x'')]" by simp
  have 3: "open_programs (runtime_state ?self) (current_program_name (runtime_state ?self)) = Some ?p"
    by simp
  have 4: "program_class ?p = Terminal" by simp
  have 5: "parse_logos (buffer ?p) = Inr [(''a'', ''b'')]"
    by (simp add: parse_logos_def parser_parse.simps lexer_defs)
  from run_is_a_terminal_command [OF 1 2 3 4 5, of no_collaborators] show ?thesis by simp
qed

text \<open>
  On the Desktop, whose buffer is empty, a step on \<open>run\<close> opens a note program named
  \<open>run\<close>; the code after it stays, where the parsed buffer would have been empty.
\<close>

theorem run_on_the_desktop_opens_a_note:
  "KEYWORDS ''run'' = None
   \<and> current_buffer (runtime_state
        (Interpreter_init [(''run'', []), (''rem'', ''x'')] Desktop STANDARD_LIBRARY)) = Inr []
   \<and> parse_logos [] = Inr []
   \<and> fst (run_once no_collaborators None
        (Interpreter_init [(''run'', []), (''rem'', ''x'')] Desktop STANDARD_LIBRARY)) = None
   \<and> remaining_code (snd (run_once no_collaborators None
        (Interpreter_init [(''run'', []), (''rem'', ''x'')] Desktop STANDARD_LIBRARY)))
      = [(''rem'', ''x'')]
   \<and> open_programs (runtime_state (snd (run_once no_collaborators None
        (Interpreter_init [(''run'', []), (''rem'', ''x'')] Desktop STANDARD_LIBRARY)))) ''run''
      = Some \<lparr>program_class = Note ''run'', buffer = []\<rparr>"
  by (simp add: run_once_def Runtime_send_def KEYWORDS_def get_command_def program_opener_def
        create_note_program_def state_defs initial_defs STANDARD_LIBRARY_def parse_logos_def
        Let_def)

text \<open>
  C2, as the code has it. \<open>execute\<close> first appends a space to arguments that are not empty
  and do not end with a space, and parses the arguments so padded followed by the clipboard.
  When that parses, the step puts the first parsed instruction, and no other, before the
  code that remained after the \<open>execute\<close> instruction (nothing when the parse is empty), and
  the runtime state stays as it is; of three parsed instructions only the first is put there.
\<close>

theorem execute_prepends_first_instruction:
  assumes "runtime_suspended self"
    and "remaining_code self = (''execute'', A) # rest"
    and "parse_logos ((if A \<noteq> [] \<and> last A \<noteq> SP then A @ [SP] else A)
                        @ clipboard (runtime_state self)) = Inr parsed"
  shows "run_once commands None self =
           (None, self\<lparr>remaining_code := take 1 parsed @ rest,
                        history := history self @ [(''execute'', A)]\<rparr>)
         \<and> (\<forall>i1 i2 i3. parsed = [i1, i2, i3] \<longrightarrow>
               remaining_code (snd (run_once commands None self)) = i1 # rest)"
  using assms
  by (auto simp: run_once_def Runtime_send_def KEYWORDS_def execute_def Let_def)

theorem execute_prepends_first_instruction_witness:
  "remaining_code (snd (run_once no_collaborators None
     ((Interpreter_init [(''execute'', []), (''rem'', ''r'')] Desktop STANDARD_LIBRARY)
        \<lparr>runtime_state := (Runtime_state Desktop STANDARD_LIBRARY)
           \<lparr>clipboard := ''x'' @ [LF] @ ''y 1'' @ [LF] @ ''z''\<rparr>\<rparr>)))
   = [(''x'', []), (''rem'', ''r'')]"
proof -
  let ?st = "(Runtime_state Desktop STANDARD_LIBRARY)
               \<lparr>clipboard := ''x'' @ [LF] @ ''y 1'' @ [LF] @ ''z''\<rparr>"
  let ?self = "(Interpreter_init [(''execute'', []), (''rem'', ''r'')] Desktop STANDARD_LIBRARY)
                 \<lparr>runtime_state := ?st\<rparr>"
  have 1: "runtime_suspended ?self" by (simp add: initial_defs)
  have 2: "remaining_code ?self = (''execute'', []) # [(''rem'', ''r'')]"
    by (simp add: initial_defs)
  have 3: "parse_logos ((if [] \<noteq> [] \<and> last [] \<noteq> SP then [] @ [SP] else [])
                          @ clipboard (runtime_state ?self))
             = Inr [(''x'', []), (''y'', ''1''), (''z'', [])]"
    by (simp add: parse_logos_def parser_parse.simps lexer_defs)
  from execute_prepends_first_instruction [OF 1 2 3, of no_collaborators]
  show ?thesis by simp
qed

text \<open>
  With arguments \<open>a\<close> and clipboard \<open>b\<close> the instruction put first is \<open>(a, b)\<close>, while
  the arguments followed by the clipboard parse to the one instruction \<open>ab\<close> without arguments.
\<close>

theorem execute_puts_a_space_after_the_arguments:
  "parse_logos (''a'' @ ''b'') = Inr [(''ab'', [])]
   \<and> fst (run_once no_collaborators None
       ((Interpreter_init [(''execute'', ''a''), (''rem'', ''r'')] Desktop STANDARD_LIBRARY)
          \<lparr>runtime_state := (Runtime_state Desktop STANDARD_LIBRARY)\<lparr>clipboard := ''b''\<rparr>\<rparr>))
      = None
   \<and> remaining_code (snd (run_once no_collaborators None
       ((Interpreter_init [(''execute'', ''a''), (''rem'', ''r'')] Desktop STANDARD_LIBRARY)
          \<lparr>runtime_state := (Runtime_state Desktop STANDARD_LIBRARY)\<lparr>clipboard := ''b''\<rparr>\<rparr>)))
      = [(''a'', ''b''), (''rem'', ''r'')]"
  by (simp add: run_once_def Runtime_send_def KEYWORDS_def execute_def parse_logos_def
        parser_parse.simps lexer_defs initial_defs)




text \<open>
  C9. When a text parses, writing the parsed instructions back (the name, then a single
  space and the arguments when there are any, one instruction per line) and parsing that
  gives the same instructions again. Parsed arguments never hold a line end, so every text
  that parses is covered.
\<close>

theorem parse_serialize_reparse:
  assumes "parse_logos s = Inr instrs"
  shows "parse_logos (serialize instrs) = Inr instrs"
proof (cases instrs)
  case Nil
  then show ?thesis by (simp add: parse_logos_def)
next
  case (Cons i rest)
  from assms have "list_all well_formed instrs"
    by (auto simp: parse_logos_def split: if_splits dest: parser_parse_well_formed)
  with Cons have wf: "list_all well_formed (i # rest)" by simp
  from serialize_hd [OF wf] parser_parse_serialize [OF wf] Cons show ?thesis
    by (simp add: parse_logos_def)
qed

theorem parse_serialize_reparse_witness:
  "parse_logos (''write a b'' @ [LF, LF] @ ''copy'' @ [CR, LF] @ ''switch Editor'')
     = Inr [(''write'', ''a b''), (''copy'', []), (''switch'', ''Editor'')]
   \<and> serialize [(''write'', ''a b''), (''copy'', []), (''switch'', ''Editor'')]
     = ''write a b'' @ [LF] @ ''copy'' @ [LF] @ ''switch Editor''
   \<and> parse_logos (serialize [(''write'', ''a b''), (''copy'', []), (''switch'', ''Editor'')])
     = Inr [(''write'', ''a b''), (''copy'', []), (''switch'', ''Editor'')]"
proof -
  have 1: "parse_logos (''write a b'' @ [LF, LF] @ ''copy'' @ [CR, LF] @ ''switch Editor'')
     = Inr [(''write'', ''a b''), (''copy'', []), (''switch'', ''Editor'')]"
    by (simp add: parse_logos_def parser_parse.simps lexer_defs)
  have 2: "serialize [(''write'', ''a b''), (''copy'', []), (''switch'', ''Editor'')]
     = ''write a b'' @ [LF] @ ''copy'' @ [LF] @ ''switch Editor''"
    by (simp add: serialize_instruction_def SP_def)
  from parse_serialize_reparse [OF 1] 1 2 show ?thesis by simp
qed





end
